theory Spec2Isabelle
  imports Main
begin

section \<open>Text, characters and the string operations the validator uses\<close>

text \<open>
  A Python \<open>str\<close> is a sequence of Unicode code points; a text is modelled as the list of
  its code points. Source literals are written as Isabelle strings and embedded by \<open>u\<close>.
\<close>

type_synonym pystr = "nat list"

definition u :: "string \<Rightarrow> pystr" where
  "u s = map of_char s"

text \<open>
  The regular expressions \<open>\w\<close>, \<open>\s\<close>, \<open>\b\<close> and \<open>str.strip()\<close> classify code
  points. For ASCII the classes are fixed here (\<open>\w\<close> is \<open>[A-Za-z0-9_]\<close>; white space is
  \<open>\t \n \v \f \r\<close>, \<open>\x1c\<close> to \<open>\x1f\<close> and the blank). For code points from 128 on the
  classes come from the Unicode tables of the Python runtime, which are no part of the
  repository: they are the parameter \<open>uc\<close> of every function that classifies characters.
  A code point has one class, so no code point is both a word character and white space.
\<close>

datatype charclass = Word | Space | Other

type_synonym unicode_classes = "nat \<Rightarrow> charclass"

definition ascii_class :: "nat \<Rightarrow> charclass" where
  "ascii_class c =
     (if (48 \<le> c \<and> c \<le> 57) \<or> (65 \<le> c \<and> c \<le> 90) \<or> (97 \<le> c \<and> c \<le> 122) \<or> c = 95 then Word
      else if (9 \<le> c \<and> c \<le> 13) \<or> (28 \<le> c \<and> c \<le> 32) then Space
      else Other)"

definition char_class :: "unicode_classes \<Rightarrow> nat \<Rightarrow> charclass" where
  "char_class uc c = (if c < 128 then ascii_class c else uc c)"

definition is_word :: "unicode_classes \<Rightarrow> nat \<Rightarrow> bool" where
  "is_word uc c = (char_class uc c = Word)"

definition is_space :: "unicode_classes \<Rightarrow> nat \<Rightarrow> bool" where
  "is_space uc c = (char_class uc c = Space)"

text \<open>The classification used in the examples: every code point from 128 on is \<open>Other\<close>.\<close>

definition no_unicode :: unicode_classes where
  "no_unicode = (\<lambda>c. Other)"

text \<open>\<open>s.startswith(p)\<close>.\<close>

fun startswith :: "pystr \<Rightarrow> pystr \<Rightarrow> bool" where
  "startswith s [] = True"
| "startswith [] (p # ps) = False"
| "startswith (c # cs) (p # ps) = (c = p \<and> startswith cs ps)"

text \<open>\<open>sub in s\<close>: the text \<open>sub\<close> occurs in \<open>s\<close> as a contiguous substring.\<close>

fun str_in :: "pystr \<Rightarrow> pystr \<Rightarrow> bool" where
  "str_in sub [] = (sub = [])"
| "str_in sub (c # cs) = (startswith (c # cs) sub \<or> str_in sub cs)"

text \<open>\<open>s.strip()\<close>: white space removed at both ends.\<close>

definition strip :: "unicode_classes \<Rightarrow> pystr \<Rightarrow> pystr" where
  "strip uc s = rev (dropWhile (is_space uc) (rev (dropWhile (is_space uc) s)))"

text \<open>\<open>code.split('\n')\<close>: the physical lines; the result is never empty.\<close>

fun split_acc :: "pystr \<Rightarrow> pystr \<Rightarrow> pystr list" where
  "split_acc cur [] = [cur]"
| "split_acc cur (c # cs) = (if c = 10 then cur # split_acc [] cs else split_acc (cur @ [c]) cs)"

definition split_nl :: "pystr \<Rightarrow> pystr list" where
  "split_nl code = split_acc [] code"

text \<open>\<open>str(n)\<close> for an integer: decimal digits, with a minus sign when negative.\<close>

fun digits :: "nat \<Rightarrow> pystr" where
  "digits n = (if n < 10 then [48 + n] else digits (n div 10) @ [48 + n mod 10])"

declare digits.simps [simp del]

definition str_int :: "int \<Rightarrow> pystr" where
  "str_int n = (if n < 0 then 45 # digits (nat (- n)) else digits (nat n))"

section \<open>The regular expressions\<close>

text \<open>
  \<open>re.search(r'/\s*(\w+)', line)\<close>. A match attempt at a position needs a slash there;
  \<open>\s*\<close> is greedy and takes all white space that follows, and \<open>\w+\<close> takes the longest
  run of word characters. Giving back white space cannot help, since a white space character is
  no word character. \<open>re.search\<close> tries the positions from left to right and returns the
  first match; the result is group 1.
\<close>

definition re_divisor_at :: "unicode_classes \<Rightarrow> pystr \<Rightarrow> pystr option" where
  "re_divisor_at uc s =
     (case s of
        [] \<Rightarrow> None
      | c # rest \<Rightarrow>
          if c = 47 then
            (let w = takeWhile (is_word uc) (dropWhile (is_space uc) rest)
             in if w = [] then None else Some w)
          else None)"

fun re_divisor_search :: "unicode_classes \<Rightarrow> pystr \<Rightarrow> pystr option" where
  "re_divisor_search uc [] = None"
| "re_divisor_search uc (c # cs) =
     (case re_divisor_at uc (c # cs) of
        Some d \<Rightarrow> Some d
      | None \<Rightarrow> re_divisor_search uc cs)"

text \<open>
  \<open>re.search(r'\b(max|min)\s*\(', line)\<close>, used as a truth value. \<open>\b\<close> before the
  word character \<open>m\<close> holds when the previous character is no word character or there is
  none; \<open>prev\<close> is the character before the position tried.
\<close>

definition re_maxmin_at :: "unicode_classes \<Rightarrow> nat option \<Rightarrow> pystr \<Rightarrow> bool" where
  "re_maxmin_at uc prev s =
     ((case prev of None \<Rightarrow> True | Some p \<Rightarrow> \<not> is_word uc p) \<and>
      (startswith s (u ''max'') \<or> startswith s (u ''min'')) \<and>
      startswith (dropWhile (is_space uc) (drop 3 s)) (u ''(''))"

fun re_maxmin_search :: "unicode_classes \<Rightarrow> nat option \<Rightarrow> pystr \<Rightarrow> bool" where
  "re_maxmin_search uc prev [] = False"
| "re_maxmin_search uc prev (c # cs) =
     (re_maxmin_at uc prev (c # cs) \<or> re_maxmin_search uc (Some c) cs)"

text \<open>
  \<open>re.search(r'(\w+)\.Current\.Value', line)\<close>. At a position, \<open>\w+\<close> takes the longest run
  of word characters, and the literal \<open>.Current.Value\<close> must follow it; a shorter run is
  followed by a word character, never by the dot. The result is group 1 of the first match.
\<close>

definition re_indicator_at :: "unicode_classes \<Rightarrow> pystr \<Rightarrow> pystr option" where
  "re_indicator_at uc s =
     (let w = takeWhile (is_word uc) s
      in if w \<noteq> [] \<and> startswith (dropWhile (is_word uc) s) (u ''.Current.Value'')
         then Some w else None)"

fun re_indicator_search :: "unicode_classes \<Rightarrow> pystr \<Rightarrow> pystr option" where
  "re_indicator_search uc [] = None"
| "re_indicator_search uc (c # cs) =
     (case re_indicator_at uc (c # cs) of
        Some w \<Rightarrow> Some w
      | None \<Rightarrow> re_indicator_search uc cs)"

text \<open>
  \<open>re.search(r'(>|<|>=|<=|==|!=)', line)\<close>, used as a truth value: one of the six
  alternatives occurs in the line.
\<close>

definition re_comparison_search :: "pystr \<Rightarrow> bool" where
  "re_comparison_search s =
     (str_in (u ''>'') s \<or> str_in (u ''<'') s \<or> str_in (u ''>='') s \<or>
      str_in (u ''<='') s \<or> str_in (u ''=='') s \<or> str_in (u ''!='') s)"

section \<open>Findings, errors and list indexing\<close>

text \<open>\<open>class ValidationIssue\<close>.\<close>

record issue =
  severity :: pystr
  line :: int
  message :: pystr
  suggestion :: pystr

text \<open>The one exception an operation of the validator can raise: a list index out of range.\<close>

datatype error = IndexError

text \<open>\<open>xs[k]\<close>: a negative index counts from the end; out of range raises.\<close>

definition py_index :: "'a list \<Rightarrow> int \<Rightarrow> error + 'a" where
  "py_index xs k =
     (let n = int (length xs); k' = (if k < 0 then n + k else k)
      in if 0 \<le> k' \<and> k' < n then Inr (xs ! nat k') else Inl IndexError)"

text \<open>\<open>range(max(0, i - w), i)\<close> for a line number \<open>i\<close>.\<close>

definition lookback_range :: "nat \<Rightarrow> nat \<Rightarrow> nat list" where
  "lookback_range w i = [nat (max 0 (int i - int w)) ..< i]"

text \<open>
  The guard loop that each check writes out:
  \<^verbatim>\<open>
  has_guard = False
  for j in range(max(0, i-5), i):
      if <guard pattern> in lines[j-1]:
          has_guard = True
          break
  \<close>
  \<open>guard_scan P lines js\<close> runs it over the values \<open>js\<close> of \<open>j\<close>, with \<open>P\<close> the guard
  pattern of the check.
\<close>

fun guard_scan :: "(pystr \<Rightarrow> bool) \<Rightarrow> pystr list \<Rightarrow> nat list \<Rightarrow> error + bool" where
  "guard_scan P lines [] = Inr False"
| "guard_scan P lines (j # js) =
     (case py_index lines (int j - 1) of
        Inl e \<Rightarrow> Inl e
      | Inr l \<Rightarrow> if P l then Inr True else guard_scan P lines js)"

text \<open>
  \<open>for i, line in enumerate(lines, 1): body\<close>, the body updating \<open>self.issues\<close>; an
  exception in the body ends the loop.
\<close>

fun for_lines ::
  "(nat \<Rightarrow> pystr \<Rightarrow> issue list \<Rightarrow> error + issue list) \<Rightarrow> (nat \<times> pystr) list \<Rightarrow> issue list
     \<Rightarrow> error + issue list" where
  "for_lines body [] issues = Inr issues"
| "for_lines body ((i, l) # rest) issues =
     (case body i l issues of
        Inl e \<Rightarrow> Inl e
      | Inr issues' \<Rightarrow> for_lines body rest issues')"

section \<open>The checks\<close>

subsection \<open>Division by zero\<close>

text \<open>The guard pattern: \<open>'if' in l and ('> 0' in l or '<= 0' in l)\<close>.\<close>

definition division_guard :: "pystr \<Rightarrow> bool" where
  "division_guard l = (str_in (u ''if'') l \<and> (str_in (u ''> 0'') l \<or> str_in (u ''<= 0'') l))"

text \<open>The issue the check appends; the quote character is code point 39.\<close>

definition division_issue :: "nat \<Rightarrow> pystr \<Rightarrow> issue" where
  "division_issue i divisor =
     \<lparr>severity = u ''warning'',
      line = int i,
      message = u ''Division by '' @ [39] @ divisor @ [39] @ u '' without zero check'',
      suggestion = u ''Add check: if '' @ divisor @ u '' <= 0: continue''\<rparr>"

text \<open>The body of the loop of \<open>_check_division_operations\<close>.\<close>

definition division_body ::
  "unicode_classes \<Rightarrow> pystr list \<Rightarrow> nat \<Rightarrow> pystr \<Rightarrow> issue list \<Rightarrow> error + issue list" where
  "division_body uc lines i l iss =
     (if str_in (u ''/'') l \<and> \<not> str_in (u ''//'') l \<and> \<not> startswith (strip uc l) (u ''#'') then
        (case guard_scan division_guard lines (lookback_range 5 i) of
           Inl e \<Rightarrow> Inl e
         | Inr has_guard \<Rightarrow>
             if \<not> has_guard \<and> \<not> str_in (u ''positionSize'') l \<and> \<not> str_in (u ''Portfolio'') l then
               (case re_divisor_search uc l of
                  Some divisor \<Rightarrow> Inr (iss @ [division_issue i divisor])
                | None \<Rightarrow> Inr iss)
             else Inr iss)
      else Inr iss)"

definition check_division_operations ::
  "unicode_classes \<Rightarrow> pystr list \<Rightarrow> issue list \<Rightarrow> error + issue list" where
  "check_division_operations uc lines iss =
     for_lines (division_body uc lines) (enumerate 1 lines) iss"

subsection \<open>max and min on values that may be None\<close>

text \<open>The guard pattern of this check and of the None comparison check.\<close>

definition none_guard :: "pystr \<Rightarrow> bool" where
  "none_guard l = (str_in (u ''is None'') l \<or> str_in (u ''is not None'') l)"

definition max_min_issue :: "nat \<Rightarrow> issue" where
  "max_min_issue i =
     \<lparr>severity = u ''error'',
      line = int i,
      message = u ''max/min operation on potentially None value'',
      suggestion = u ''Add None check before max/min operation''\<rparr>"

definition max_min_body ::
  "unicode_classes \<Rightarrow> pystr list \<Rightarrow> nat \<Rightarrow> pystr \<Rightarrow> issue list \<Rightarrow> error + issue list" where
  "max_min_body uc lines i l iss =
     (if re_maxmin_search uc None l then
        (if str_in (u ''indicators['') l \<or> str_in (u ''self.'') l then
           (case guard_scan none_guard lines (lookback_range 5 i) of
              Inl e \<Rightarrow> Inl e
            | Inr has_guard \<Rightarrow>
                if \<not> has_guard then Inr (iss @ [max_min_issue i]) else Inr iss)
         else Inr iss)
      else Inr iss)"

definition check_max_min_operations ::
  "unicode_classes \<Rightarrow> pystr list \<Rightarrow> issue list \<Rightarrow> error + issue list" where
  "check_max_min_operations uc lines iss =
     for_lines (max_min_body uc lines) (enumerate 1 lines) iss"

subsection \<open>Indicator readiness\<close>

definition indicator_issue :: "nat \<Rightarrow> issue" where
  "indicator_issue i =
     \<lparr>severity = u ''error'',
      line = int i,
      message = u ''Indicator value used without IsReady check'',
      suggestion = u ''Add: if not indicator.IsReady: continue''\<rparr>"

text \<open>
  The body searches twice: \<open>\w+\.Current\.Value\<close> as the trigger, then the same pattern with
  the group for the name. When the second search finds nothing, \<open>has_ready_check\<close> stays
  false.
\<close>

definition indicator_body ::
  "unicode_classes \<Rightarrow> pystr list \<Rightarrow> nat \<Rightarrow> pystr \<Rightarrow> issue list \<Rightarrow> error + issue list" where
  "indicator_body uc lines i l iss =
     (if re_indicator_search uc l \<noteq> None \<and> \<not> startswith (strip uc l) (u ''#'') then
        (case (case re_indicator_search uc l of
                 None \<Rightarrow> Inr False
               | Some name \<Rightarrow>
                   guard_scan (str_in (name @ u ''.IsReady'')) lines (lookback_range 10 i)) of
           Inl e \<Rightarrow> Inl e
         | Inr has_ready_check \<Rightarrow>
             if \<not> has_ready_check then Inr (iss @ [indicator_issue i]) else Inr iss)
      else Inr iss)"

definition check_indicator_usage ::
  "unicode_classes \<Rightarrow> pystr list \<Rightarrow> issue list \<Rightarrow> error + issue list" where
  "check_indicator_usage uc lines iss =
     for_lines (indicator_body uc lines) (enumerate 1 lines) iss"

subsection \<open>Comparisons with values that may be None\<close>

definition none_comparison_issue :: "nat \<Rightarrow> issue" where
  "none_comparison_issue i =
     \<lparr>severity = u ''error'',
      line = int i,
      message = u ''Comparison with potentially None value'',
      suggestion = u ''Add None check before comparison''\<rparr>"

text \<open>
  The condition of the innermost \<open>if\<close> is
  \<open>not has_guard and 'indicators["high"]' in line or 'indicators["low"]' in line\<close>;
  in Python \<open>and\<close> binds tighter than \<open>or\<close>. The double quote is code point 34.
\<close>

definition none_comparison_body ::
  "pystr list \<Rightarrow> nat \<Rightarrow> pystr \<Rightarrow> issue list \<Rightarrow> error + issue list" where
  "none_comparison_body lines i l iss =
     (if re_comparison_search l \<and> (str_in (u ''indicators['') l \<or> str_in (u ''self.'') l) then
        (if \<not> str_in (u ''is None'') l \<and> \<not> str_in (u ''is not None'') l then
           (case guard_scan none_guard lines (lookback_range 5 i) of
              Inl e \<Rightarrow> Inl e
            | Inr has_guard \<Rightarrow>
                if (\<not> has_guard \<and> str_in (u ''indicators['' @ [34] @ u ''high'' @ [34] @ u '']'') l)
                   \<or> str_in (u ''indicators['' @ [34] @ u ''low'' @ [34] @ u '']'') l
                then Inr (iss @ [none_comparison_issue i]) else Inr iss)
         else Inr iss)
      else Inr iss)"

definition check_none_comparisons :: "pystr list \<Rightarrow> issue list \<Rightarrow> error + issue list" where
  "check_none_comparisons lines iss =
     for_lines (none_comparison_body lines) (enumerate 1 lines) iss"

subsection \<open>Portfolio access\<close>

text \<open>The body recognises the pattern and does nothing (\<open>pass\<close>).\<close>

definition portfolio_body :: "nat \<Rightarrow> pystr \<Rightarrow> issue list \<Rightarrow> error + issue list" where
  "portfolio_body i l iss =
     (if str_in (u ''self.Portfolio['') l \<and> \<not> str_in (u ''Invested'') l then Inr iss else Inr iss)"

definition check_portfolio_access :: "pystr list \<Rightarrow> issue list \<Rightarrow> error + issue list" where
  "check_portfolio_access lines iss = for_lines portfolio_body (enumerate 1 lines) iss"

section \<open>The validator\<close>

text \<open>
  \<open>class QuantConnectValidator\<close>: its state is the list \<open>self.issues\<close> (the logger takes no
  part in any result). \<open>new_validator\<close> is the state after \<open>__init__\<close>.
\<close>

record validator =
  issues :: "issue list"

definition new_validator :: validator where
  "new_validator = \<lparr>issues = []\<rparr>"

text \<open>
  \<open>validate\<close> resets \<open>self.issues\<close>, runs the five checks in order, each on the list the
  one before left, and returns \<open>self.issues\<close>. The result is the returned list and the new
  state of the validator, or the exception that ended the call.
\<close>

definition validate ::
  "unicode_classes \<Rightarrow> validator \<Rightarrow> pystr \<Rightarrow> error + (issue list \<times> validator)" where
  "validate uc v code =
     (let lines = split_nl code in
      case check_division_operations uc lines [] of
        Inl e \<Rightarrow> Inl e
      | Inr i1 \<Rightarrow>
     (case check_max_min_operations uc lines i1 of
        Inl e \<Rightarrow> Inl e
      | Inr i2 \<Rightarrow>
     (case check_indicator_usage uc lines i2 of
        Inl e \<Rightarrow> Inl e
      | Inr i3 \<Rightarrow>
     (case check_none_comparisons lines i3 of
        Inl e \<Rightarrow> Inl e
      | Inr i4 \<Rightarrow>
     (case check_portfolio_access lines i4 of
        Inl e \<Rightarrow> Inl e
      | Inr i5 \<Rightarrow> Inr (i5, v\<lparr>issues := i5\<rparr>))))))"

definition has_errors :: "validator \<Rightarrow> bool" where
  "has_errors v = list_ex (\<lambda>x. severity x = u ''error'') (issues v)"

definition has_warnings :: "validator \<Rightarrow> bool" where
  "has_warnings v = list_ex (\<lambda>x. severity x = u ''warning'') (issues v)"

definition get_error_count :: "validator \<Rightarrow> nat" where
  "get_error_count v = sum_list (map (\<lambda>x. 1) (filter (\<lambda>x. severity x = u ''error'') (issues v)))"

definition get_warning_count :: "validator \<Rightarrow> nat" where
  "get_warning_count v = sum_list (map (\<lambda>x. 1) (filter (\<lambda>x. severity x = u ''warning'') (issues v)))"

text \<open>
  \<open>format_report\<close>. The check mark is code point 9989, the arrow 8594, the newline 10.
  \<open>report_issues\<close> is the loop \<open>for issue in ...: report += ...\<close>.
\<close>

definition no_issues_message :: pystr where
  "no_issues_message = [9989] @ u '' No validation issues found''"

fun report_issues :: "pystr \<Rightarrow> issue list \<Rightarrow> pystr" where
  "report_issues report [] = report"
| "report_issues report (x # xs) =
     report_issues
       ((report @ u ''  Line '' @ str_int (line x) @ u '': '' @ message x @ [10])
          @ u ''    '' @ [8594] @ u '' '' @ suggestion x @ [10, 10])
       xs"

definition format_report :: "validator \<Rightarrow> pystr" where
  "format_report v =
     (if issues v = [] then no_issues_message
      else
        (let report0 = u ''Found '' @ str_int (int (length (issues v))) @ u '' validation issues:'' @ [10, 10];
             errors = filter (\<lambda>x. severity x = u ''error'') (issues v);
             warnings = filter (\<lambda>x. severity x = u ''warning'') (issues v);
             report1 = (if errors \<noteq> [] then report_issues (report0 @ u ''ERRORS:'' @ [10]) errors
                        else report0);
             report2 = (if warnings \<noteq> [] then report_issues (report1 @ u ''WARNINGS:'' @ [10]) warnings
                        else report1)
         in report2))"

section \<open>Notions used to state the properties\<close>

text \<open>
  The lines strictly above line \<open>i\<close> (1-based) within a window of \<open>w\<close> lines: the lines
  numbered \<open>i - w\<close> to \<open>i - 1\<close>, as far as they exist.
\<close>

definition lines_above :: "nat \<Rightarrow> 'a list \<Rightarrow> nat \<Rightarrow> 'a list" where
  "lines_above w lines i = map (\<lambda>k. lines ! (k - 1)) (filter (\<lambda>k. 1 \<le> k) [i - w ..< i])"

text \<open>The line that iteration \<open>j\<close> of the guard loop reads, \<open>lines[j-1]\<close>, for \<open>j\<close> in range.\<close>

definition scanned_line :: "'a list \<Rightarrow> nat \<Rightarrow> 'a" where
  "scanned_line lines j = (if j = 0 then last lines else lines ! (j - 1))"

text \<open>
  What the guard loop of a check with window \<open>w\<close> and guard pattern \<open>P\<close> finds at line
  \<open>i\<close>: a guard among the lines above in the window, or, when \<open>i \<le> w\<close>, on the last line of
  the input (proved below, \<open>guard_scan_found\<close>).
\<close>

definition guard_found :: "(pystr \<Rightarrow> bool) \<Rightarrow> nat \<Rightarrow> pystr list \<Rightarrow> nat \<Rightarrow> bool" where
  "guard_found P w lines i = ((i \<le> w \<and> P (last lines)) \<or> list_ex P (lines_above w lines i))"

text \<open>A comment line: \<open>line.strip().startswith('#')\<close>.\<close>

definition is_comment :: "unicode_classes \<Rightarrow> pystr \<Rightarrow> bool" where
  "is_comment uc l = startswith (strip uc l) (u ''#'')"

text \<open>The trigger of the division check, and the issues its body appends at line \<open>i\<close>.\<close>

definition division_trigger :: "unicode_classes \<Rightarrow> pystr \<Rightarrow> bool" where
  "division_trigger uc l =
     (str_in (u ''/'') l \<and> \<not> str_in (u ''//'') l \<and> \<not> startswith (strip uc l) (u ''#''))"

definition division_new :: "unicode_classes \<Rightarrow> pystr list \<Rightarrow> nat \<Rightarrow> pystr \<Rightarrow> issue list" where
  "division_new uc lines i l =
     (if division_trigger uc l \<and> \<not> guard_found division_guard 5 lines i
         \<and> \<not> str_in (u ''positionSize'') l \<and> \<not> str_in (u ''Portfolio'') l
      then (case re_divisor_search uc l of Some d \<Rightarrow> [division_issue i d] | None \<Rightarrow> [])
      else [])"

text \<open>
  The claim's wording of the trigger, "a \<open>/\<close> character that is not part of \<open>//\<close>": a slash
  with no slash before it and none after it. \<open>prev\<close> is the character before the position.
\<close>

fun spec_lone_slash :: "nat option \<Rightarrow> pystr \<Rightarrow> bool" where
  "spec_lone_slash prev [] = False"
| "spec_lone_slash prev (c # cs) =
     ((c = 47 \<and> prev \<noteq> Some 47 \<and> (case cs of [] \<Rightarrow> True | d # ds \<Rightarrow> d \<noteq> 47))
      \<or> spec_lone_slash (Some c) cs)"

text \<open>The issues the body of the max/min check appends at line \<open>i\<close>.\<close>

definition max_min_new :: "unicode_classes \<Rightarrow> pystr list \<Rightarrow> nat \<Rightarrow> pystr \<Rightarrow> issue list" where
  "max_min_new uc lines i l =
     (if re_maxmin_search uc None l \<and> (str_in (u ''indicators['') l \<or> str_in (u ''self.'') l)
         \<and> \<not> guard_found none_guard 5 lines i
      then [max_min_issue i] else [])"

text \<open>
  The guard of the indicator check at line \<open>i\<close>, for the name the line's first match captures,
  and the issues the body appends.
\<close>

definition indicator_guard_found :: "unicode_classes \<Rightarrow> pystr list \<Rightarrow> nat \<Rightarrow> pystr \<Rightarrow> bool" where
  "indicator_guard_found uc lines i l =
     (case re_indicator_search uc l of
        None \<Rightarrow> False
      | Some name \<Rightarrow> guard_found (str_in (name @ u ''.IsReady'')) 10 lines i)"

definition indicator_new :: "unicode_classes \<Rightarrow> pystr list \<Rightarrow> nat \<Rightarrow> pystr \<Rightarrow> issue list" where
  "indicator_new uc lines i l =
     (if re_indicator_search uc l \<noteq> None \<and> \<not> startswith (strip uc l) (u ''#'')
         \<and> \<not> indicator_guard_found uc lines i l
      then [indicator_issue i] else [])"

text \<open>
  The trigger of the None comparison check, its two literals, and the issues its body
  appends at line \<open>i\<close>.
\<close>

definition none_comparison_trigger :: "pystr \<Rightarrow> bool" where
  "none_comparison_trigger l =
     (re_comparison_search l \<and> (str_in (u ''indicators['') l \<or> str_in (u ''self.'') l) \<and>
      \<not> str_in (u ''is None'') l \<and> \<not> str_in (u ''is not None'') l)"

definition has_high_literal :: "pystr \<Rightarrow> bool" where
  "has_high_literal l = str_in (u ''indicators['' @ [34] @ u ''high'' @ [34] @ u '']'') l"

definition has_low_literal :: "pystr \<Rightarrow> bool" where
  "has_low_literal l = str_in (u ''indicators['' @ [34] @ u ''low'' @ [34] @ u '']'') l"

definition none_comparison_new :: "pystr list \<Rightarrow> nat \<Rightarrow> pystr \<Rightarrow> issue list" where
  "none_comparison_new lines i l =
     (if none_comparison_trigger l \<and>
         ((\<not> guard_found none_guard 5 lines i \<and> has_high_literal l) \<or> has_low_literal l)
      then [none_comparison_issue i] else [])"

text \<open>The list that one call of \<open>validate\<close> builds, check by check.\<close>

definition validate_issues :: "unicode_classes \<Rightarrow> pystr list \<Rightarrow> issue list" where
  "validate_issues uc lines =
     concat (map (\<lambda>(i, l). division_new uc lines i l) (enumerate 1 lines)) @
     concat (map (\<lambda>(i, l). max_min_new uc lines i l) (enumerate 1 lines)) @
     concat (map (\<lambda>(i, l). indicator_new uc lines i l) (enumerate 1 lines)) @
     concat (map (\<lambda>(i, l). none_comparison_new lines i l) (enumerate 1 lines))"

section \<open>The guard loop and the loop over the lines\<close>

lemma py_index_scanned:
  assumes "lines \<noteq> []" "j \<le> length lines"
  shows "py_index lines (int j - 1) = Inr (scanned_line lines j)"
proof (cases "j = 0")
  case True
  with assms show ?thesis
    by (simp add: py_index_def scanned_line_def last_conv_nth nat_diff_distrib')
next
  case False
  with assms show ?thesis
    by (simp add: py_index_def scanned_line_def nat_diff_distrib' Let_def)
qed

lemma guard_scan_list_ex:
  assumes "lines \<noteq> []" "\<forall>j\<in>set js. j \<le> length lines"
  shows "guard_scan P lines js = Inr (list_ex (\<lambda>j. P (scanned_line lines j)) js)"
  using assms by (induction js) (simp_all add: py_index_scanned)

lemma set_lookback_range: "set (lookback_range w i) = {j. i - w \<le> j \<and> j < i}"
  by (auto simp: lookback_range_def)

lemma guard_scan_lookback:
  assumes "1 \<le> i" "i \<le> length lines"
  shows "guard_scan P lines (lookback_range w i) =
           Inr ((i \<le> w \<and> P (last lines)) \<or> list_ex P (lines_above w lines i))"
proof -
  from assms have ne: "lines \<noteq> []" by auto
  have bound: "\<forall>j\<in>set (lookback_range w i). j \<le> length lines"
    using assms by (auto simp: set_lookback_range)
  have "list_ex (\<lambda>j. P (scanned_line lines j)) (lookback_range w i) =
          ((i \<le> w \<and> P (last lines)) \<or> list_ex P (lines_above w lines i))"
  proof -
    have "(\<exists>j. i - w \<le> j \<and> j < i \<and> P (scanned_line lines j)) =
            ((i \<le> w \<and> P (last lines)) \<or> (\<exists>k. i - w \<le> k \<and> k < i \<and> 1 \<le> k \<and> P (lines ! (k - 1))))"
      (is "?L = ?R")
    proof
      assume ?L
      then obtain j where j: "i - w \<le> j" "j < i" "P (scanned_line lines j)" by blast
      show ?R
      proof (cases "j = 0")
        case True
        with j show ?thesis by (auto simp: scanned_line_def)
      next
        case False
        with j show ?thesis by (auto simp: scanned_line_def)
      qed
    next
      assume ?R
      then show ?L
      proof
        assume "i \<le> w \<and> P (last lines)"
        with assms have "i - w \<le> 0 \<and> 0 < i \<and> P (scanned_line lines 0)"
          by (simp add: scanned_line_def)
        then show ?L by blast
      next
        assume "\<exists>k. i - w \<le> k \<and> k < i \<and> 1 \<le> k \<and> P (lines ! (k - 1))"
        then obtain k where "i - w \<le> k" "k < i" "1 \<le> k" "P (lines ! (k - 1))" by blast
        then have "i - w \<le> k \<and> k < i \<and> P (scanned_line lines k)"
          by (simp add: scanned_line_def)
        then show ?L by blast
      qed
    qed
    then show ?thesis
      by (auto simp: list_ex_iff set_lookback_range lines_above_def)
  qed
  with guard_scan_list_ex [OF ne bound, of P] show ?thesis by simp
qed

lemma guard_scan_found:
  assumes "1 \<le> i" "i \<le> length lines"
  shows "guard_scan P lines (lookback_range w i) = Inr (guard_found P w lines i)"
  unfolding guard_found_def by (rule guard_scan_lookback [OF assms])

lemma for_lines_append:
  assumes "\<forall>(i, l)\<in>set es. \<forall>iss. body i l iss = Inr (iss @ new i l)"
  shows "for_lines body es iss = Inr (iss @ concat (map (\<lambda>(i, l). new i l) es))"
  using assms
proof (induction es arbitrary: iss)
  case Nil
  then show ?case by simp
next
  case (Cons e es)
  obtain i l where e: "e = (i, l)" by (cases e)
  from Cons.prems e have step: "body i l iss = Inr (iss @ new i l)" by simp
  from Cons.prems have rest: "\<forall>(i, l)\<in>set es. \<forall>iss. body i l iss = Inr (iss @ new i l)" by simp
  from Cons.IH [OF rest] step e show ?case by simp
qed

lemma enumerate_lines_bounds:
  assumes "(i, l) \<in> set (enumerate 1 lines)"
  shows "1 \<le> i \<and> i \<le> length lines \<and> l = lines ! (i - 1)"
  using assms by (auto simp: in_set_enumerate_eq)

lemma enumerate_lines_mem:
  assumes "1 \<le> i" "i \<le> length lines"
  shows "(i, lines ! (i - 1)) \<in> set (enumerate 1 lines)"
  using assms by (auto simp: in_set_enumerate_eq)

lemma emitted_for_line:
  assumes tag: "\<And>k l f. f \<in> set (new k l) \<Longrightarrow> line f = int k"
    and i: "1 \<le> i" "i \<le> length lines"
  shows "(f \<in> set (concat (map (\<lambda>(k, l). new k l) (enumerate 1 lines))) \<and> line f = int i)
           = (f \<in> set (new i (lines ! (i - 1))))"
proof
  assume "f \<in> set (concat (map (\<lambda>(k, l). new k l) (enumerate 1 lines))) \<and> line f = int i"
  then obtain k l where kl: "(k, l) \<in> set (enumerate 1 lines)" "f \<in> set (new k l)"
    and f: "line f = int i" by auto
  from tag [OF kl(2)] f have "k = i" by simp
  with kl enumerate_lines_bounds [OF kl(1)] show "f \<in> set (new i (lines ! (i - 1)))" by simp
next
  assume f: "f \<in> set (new i (lines ! (i - 1)))"
  have mem: "(i, lines ! (i - 1)) \<in> set (enumerate 1 lines)"
    by (rule enumerate_lines_mem [OF i])
  have "f \<in> set (case (i, lines ! (i - 1)) of (k, l) \<Rightarrow> new k l)"
    using f by simp
  with mem have "\<exists>e\<in>set (enumerate 1 lines). f \<in> set (case e of (k, l) \<Rightarrow> new k l)"
    by (rule rev_bexI)
  then have "f \<in> set (concat (map (\<lambda>(k, l). new k l) (enumerate 1 lines)))"
    by simp
  with tag [OF f]
  show "f \<in> set (concat (map (\<lambda>(k, l). new k l) (enumerate 1 lines))) \<and> line f = int i"
    by simp
qed

lemma line_bounds_of_emitted:
  assumes tag: "\<And>k l f. f \<in> set (new k l) \<Longrightarrow> line f = int k"
    and f: "f \<in> set (concat (map (\<lambda>(k, l). new k l) (enumerate 1 lines)))"
  shows "1 \<le> line f \<and> line f \<le> int (length lines)"
proof -
  from f obtain k l where kl: "(k, l) \<in> set (enumerate 1 lines)" "f \<in> set (new k l)" by auto
  from tag [OF kl(2)] enumerate_lines_bounds [OF kl(1)] show ?thesis by simp
qed

section \<open>The division check\<close>

lemma division_body_new:
  assumes "1 \<le> i" "i \<le> length lines"
  shows "division_body uc lines i l iss = Inr (iss @ division_new uc lines i l)"
proof (cases "re_divisor_search uc l")
  case None
  then show ?thesis
    by (simp add: division_body_def division_new_def division_trigger_def
          guard_scan_found [OF assms])
next
  case (Some d)
  then show ?thesis
    by (simp add: division_body_def division_new_def division_trigger_def
          guard_scan_found [OF assms])
qed

lemma division_new_cases:
  "division_new uc lines k l = [] \<or>
   (\<exists>d. re_divisor_search uc l = Some d \<and> division_new uc lines k l = [division_issue k d])"
  unfolding division_new_def by (cases "re_divisor_search uc l") simp_all

lemma division_new_line: "f \<in> set (division_new uc lines k l) \<Longrightarrow> line f = int k"
  using division_new_cases [of uc lines k l] by (auto simp: division_issue_def)

lemma check_division_new:
  "check_division_operations uc lines iss =
     Inr (iss @ concat (map (\<lambda>(i, l). division_new uc lines i l) (enumerate 1 lines)))"
proof -
  have "\<forall>(i, l)\<in>set (enumerate 1 lines). \<forall>iss'.
          division_body uc lines i l iss' = Inr (iss' @ division_new uc lines i l)"
  proof clarify
    fix i l iss'
    assume "(i, l) \<in> set (enumerate 1 lines)"
    from enumerate_lines_bounds [OF this] have "1 \<le> i" "i \<le> length lines" by simp_all
    then show "division_body uc lines i l iss' = Inr (iss' @ division_new uc lines i l)"
      by (rule division_body_new)
  qed
  then show ?thesis
    unfolding check_division_operations_def
    by (rule for_lines_append [where new = "division_new uc lines"])
qed

lemma startswith_append: "startswith (p @ b) p"
  by (induction p) simp_all

lemma str_in_startswith: "startswith s sub \<Longrightarrow> str_in sub s"
  by (cases s; cases sub) simp_all

lemma str_in_prepend: "str_in sub s \<Longrightarrow> str_in sub (a @ s)"
  by (induction a) simp_all

lemma str_in_middle: "str_in sub (a @ sub @ b)"
  by (rule str_in_prepend, rule str_in_startswith, rule startswith_append)

lemma split_acc_nonempty: "split_acc cur cs \<noteq> []"
  by (induction cs arbitrary: cur) simp_all

lemma split_nl_nonempty: "split_nl code \<noteq> []"
  by (simp add: split_nl_def split_acc_nonempty)

lemma division_emitted_iff:
  assumes "1 \<le> i" "i \<le> length lines"
  shows "(f \<in> set (concat (map (\<lambda>(k, l). division_new uc lines k l) (enumerate 1 lines)))
            \<and> line f = int i)
         = (f \<in> set (division_new uc lines i (lines ! (i - 1))))"
  by (rule emitted_for_line [OF division_new_line assms])

lemma division_issue_fields:
  "severity (division_issue i d) = u ''warning'' \<and> line (division_issue i d) = int i \<and>
   str_in d (message (division_issue i d)) \<and>
   str_in (u ''if '' @ d @ u '' <= 0: continue'') (suggestion (division_issue i d))"
proof -
  have m: "str_in d ((u ''Division by '' @ [39]) @ d @ ([39] @ u '' without zero check''))"
    by (rule str_in_middle)
  have "u ''Add check: if '' = u ''Add check: '' @ u ''if ''"
    by (simp add: u_def)
  then have "u ''Add check: if '' @ d @ u '' <= 0: continue''
               = u ''Add check: '' @ (u ''if '' @ d @ u '' <= 0: continue'') @ []"
    by simp
  then have g: "str_in (u ''if '' @ d @ u '' <= 0: continue'')
                  (u ''Add check: if '' @ d @ u '' <= 0: continue'')"
    using str_in_middle [of "u ''if '' @ d @ u '' <= 0: continue''" "u ''Add check: ''" "[]"]
    by simp
  from m g show ?thesis
    by (simp add: division_issue_def)
qed

text \<open>
  Claim C1, as the code has it. The division check appends to \<open>self.issues\<close>; for a line
  number \<open>i\<close> of the input such that \<open>i > 5\<close> or the last line of the input holds no guard
  pattern, it appends a finding with line \<open>i\<close> if and only if line \<open>i\<close> contains \<open>/\<close>,
  contains \<open>//\<close> nowhere, is no comment, none of the 5 lines strictly above it contains \<open>if\<close>
  together with \<open>> 0\<close> or \<open><= 0\<close>, it contains neither \<open>positionSize\<close> nor \<open>Portfolio\<close>, and
  the search for \<open>/\s*(\w+)\<close> finds a divisor. Every finding with line \<open>i\<close> is the warning
  naming that divisor, with a suggestion that contains \<open>if <divisor> <= 0: continue\<close>.
\<close>

theorem division_check_emits:
  assumes lines: "lines = split_nl code"
    and l: "l = lines ! (i - 1)"
    and i: "1 \<le> i" "i \<le> length lines"
    and no_wrap: "5 < i \<or> \<not> division_guard (last lines)"
  shows "\<exists>new. check_division_operations uc lines iss = Inr (iss @ new) \<and>
           ((\<exists>f\<in>set new. line f = int i) \<longleftrightarrow>
              (str_in (u ''/'') l \<and> \<not> str_in (u ''//'') l \<and> \<not> is_comment uc l \<and>
               \<not> list_ex division_guard (lines_above 5 lines i) \<and>
               \<not> str_in (u ''positionSize'') l \<and> \<not> str_in (u ''Portfolio'') l \<and>
               re_divisor_search uc l \<noteq> None)) \<and>
           (\<forall>f\<in>set new. line f = int i \<longrightarrow>
              (\<exists>d. re_divisor_search uc l = Some d \<and> f = division_issue i d \<and>
                   severity f = u ''warning'' \<and> str_in d (message f) \<and>
                   str_in (u ''if '' @ d @ u '' <= 0: continue'') (suggestion f)))"
proof -
  define new where
    "new = concat (map (\<lambda>(k, l). division_new uc lines k l) (enumerate 1 lines))"
  have run: "check_division_operations uc lines iss = Inr (iss @ new)"
    unfolding new_def by (rule check_division_new)
  have mem: "\<And>f. (f \<in> set new \<and> line f = int i) = (f \<in> set (division_new uc lines i l))"
    unfolding new_def l by (rule division_emitted_iff [OF i])
  from no_wrap have found:
    "guard_found division_guard 5 lines i = list_ex division_guard (lines_above 5 lines i)"
    by (auto simp: guard_found_def)
  have nonempty: "(division_new uc lines i l \<noteq> []) =
          (str_in (u ''/'') l \<and> \<not> str_in (u ''//'') l \<and> \<not> is_comment uc l \<and>
           \<not> list_ex division_guard (lines_above 5 lines i) \<and>
           \<not> str_in (u ''positionSize'') l \<and> \<not> str_in (u ''Portfolio'') l \<and>
           re_divisor_search uc l \<noteq> None)"
    by (cases "re_divisor_search uc l")
       (simp_all add: division_new_def division_trigger_def is_comment_def found)
  have "(\<exists>f\<in>set new. line f = int i) = (\<exists>f. f \<in> set (division_new uc lines i l))"
    using mem by blast
  also have "\<dots> = (division_new uc lines i l \<noteq> [])"
    by (cases "division_new uc lines i l") auto
  finally have emitted: "(\<exists>f\<in>set new. line f = int i) = (division_new uc lines i l \<noteq> [])" .
  have shape: "\<forall>f\<in>set new. line f = int i \<longrightarrow>
              (\<exists>d. re_divisor_search uc l = Some d \<and> f = division_issue i d \<and>
                   severity f = u ''warning'' \<and> str_in d (message f) \<and>
                   str_in (u ''if '' @ d @ u '' <= 0: continue'') (suggestion f))"
  proof (intro ballI impI)
    fix f assume "f \<in> set new" "line f = int i"
    with mem have f: "f \<in> set (division_new uc lines i l)" by blast
    from division_new_cases [of uc lines i l] f
    obtain d where d: "re_divisor_search uc l = Some d" "f = division_issue i d" by auto
    with division_issue_fields [of i d]
    show "\<exists>d. re_divisor_search uc l = Some d \<and> f = division_issue i d \<and>
                   severity f = u ''warning'' \<and> str_in d (message f) \<and>
                   str_in (u ''if '' @ d @ u '' <= 0: continue'') (suggestion f)"
      by blast
  qed
  from run emitted nonempty shape show ?thesis by blast
qed

text \<open>
  The theorem at the one-line input \<open>result = total / count\<close>: the check appends the warning
  for the divisor \<open>count\<close> at line 1.
\<close>

theorem division_check_emits_witness:
  "\<exists>new. check_division_operations no_unicode (split_nl (u ''result = total / count'')) [] = Inr new \<and>
         (\<exists>f\<in>set new. line f = 1 \<and> f = division_issue 1 (u ''count''))"
proof -
  let ?T = "u ''result = total / count''"
  have h1: "split_nl ?T = split_nl ?T" by simp
  have h2: "?T = split_nl ?T ! (1 - 1)" by code_simp
  have h3: "(1::nat) \<le> 1" by simp
  have h4: "1 \<le> length (split_nl ?T)" by code_simp
  have h5: "5 < (1::nat) \<or> \<not> division_guard (last (split_nl ?T))" by code_simp
  have c: "str_in (u ''/'') ?T \<and> \<not> str_in (u ''//'') ?T \<and> \<not> is_comment no_unicode ?T \<and>
           \<not> list_ex division_guard (lines_above 5 (split_nl ?T) 1) \<and>
           \<not> str_in (u ''positionSize'') ?T \<and> \<not> str_in (u ''Portfolio'') ?T"
    by code_simp
  have d: "re_divisor_search no_unicode ?T = Some (u ''count'')" by code_simp
  from division_check_emits [OF h1 h2 h3 h4 h5, of no_unicode "[]"] c d
  show ?thesis by auto
qed

text \<open>
  Claim C1 as stated fails at the one-line input \<open>x = a // b / c\<close>: the line has a slash that
  is not part of \<open>//\<close>, is no comment, has no line above it, names neither \<open>positionSize\<close>
  nor \<open>Portfolio\<close>, and the divisor \<open>b\<close> is found; yet the check appends nothing, because
  the line contains \<open>//\<close>.
\<close>

theorem division_check_counterexample:
  "spec_lone_slash None (u ''x = a // b / c'') \<and>
   \<not> is_comment no_unicode (u ''x = a // b / c'') \<and>
   split_nl (u ''x = a // b / c'') = [u ''x = a // b / c''] \<and>
   lines_above 5 (split_nl (u ''x = a // b / c'')) 1 = [] \<and>
   \<not> str_in (u ''positionSize'') (u ''x = a // b / c'') \<and>
   \<not> str_in (u ''Portfolio'') (u ''x = a // b / c'') \<and>
   re_divisor_search no_unicode (u ''x = a // b / c'') = Some (u ''b'') \<and>
   check_division_operations no_unicode (split_nl (u ''x = a // b / c'')) [] = Inr []"
  by code_simp

section \<open>The max/min check\<close>

lemma max_min_body_new:
  assumes "1 \<le> i" "i \<le> length lines"
  shows "max_min_body uc lines i l iss = Inr (iss @ max_min_new uc lines i l)"
  by (simp add: max_min_body_def max_min_new_def guard_scan_found [OF assms])

lemma max_min_new_line: "f \<in> set (max_min_new uc lines k l) \<Longrightarrow> line f = int k"
  by (cases "max_min_new uc lines k l = []")
     (auto simp: max_min_new_def max_min_issue_def split: if_split_asm)

lemma check_max_min_new:
  "check_max_min_operations uc lines iss =
     Inr (iss @ concat (map (\<lambda>(i, l). max_min_new uc lines i l) (enumerate 1 lines)))"
proof -
  have "\<forall>(i, l)\<in>set (enumerate 1 lines). \<forall>iss'.
          max_min_body uc lines i l iss' = Inr (iss' @ max_min_new uc lines i l)"
  proof clarify
    fix i l iss'
    assume "(i, l) \<in> set (enumerate 1 lines)"
    from enumerate_lines_bounds [OF this] have "1 \<le> i" "i \<le> length lines" by simp_all
    then show "max_min_body uc lines i l iss' = Inr (iss' @ max_min_new uc lines i l)"
      by (rule max_min_body_new)
  qed
  then show ?thesis
    unfolding check_max_min_operations_def
    by (rule for_lines_append [where new = "max_min_new uc lines"])
qed

section \<open>The indicator check\<close>

lemma indicator_body_new:
  assumes "1 \<le> i" "i \<le> length lines"
  shows "indicator_body uc lines i l iss = Inr (iss @ indicator_new uc lines i l)"
proof (cases "re_indicator_search uc l")
  case None
  then show ?thesis
    by (simp add: indicator_body_def indicator_new_def)
next
  case (Some name)
  then show ?thesis
    by (simp add: indicator_body_def indicator_new_def indicator_guard_found_def
          guard_scan_found [OF assms])
qed

lemma indicator_new_line: "f \<in> set (indicator_new uc lines k l) \<Longrightarrow> line f = int k"
  by (cases "indicator_new uc lines k l = []")
     (auto simp: indicator_new_def indicator_issue_def split: if_split_asm)

lemma check_indicator_new:
  "check_indicator_usage uc lines iss =
     Inr (iss @ concat (map (\<lambda>(i, l). indicator_new uc lines i l) (enumerate 1 lines)))"
proof -
  have "\<forall>(i, l)\<in>set (enumerate 1 lines). \<forall>iss'.
          indicator_body uc lines i l iss' = Inr (iss' @ indicator_new uc lines i l)"
  proof clarify
    fix i l iss'
    assume "(i, l) \<in> set (enumerate 1 lines)"
    from enumerate_lines_bounds [OF this] have "1 \<le> i" "i \<le> length lines" by simp_all
    then show "indicator_body uc lines i l iss' = Inr (iss' @ indicator_new uc lines i l)"
      by (rule indicator_body_new)
  qed
  then show ?thesis
    unfolding check_indicator_usage_def
    by (rule for_lines_append [where new = "indicator_new uc lines"])
qed

section \<open>The None comparison check\<close>

lemma none_comparison_body_new:
  assumes "1 \<le> i" "i \<le> length lines"
  shows "none_comparison_body lines i l iss = Inr (iss @ none_comparison_new lines i l)"
  by (simp add: none_comparison_body_def none_comparison_new_def none_comparison_trigger_def
        has_high_literal_def has_low_literal_def guard_scan_found [OF assms])

lemma none_comparison_new_line: "f \<in> set (none_comparison_new lines k l) \<Longrightarrow> line f = int k"
  by (cases "none_comparison_new lines k l = []")
     (auto simp: none_comparison_new_def none_comparison_issue_def split: if_split_asm)

lemma check_none_comparisons_new:
  "check_none_comparisons lines iss =
     Inr (iss @ concat (map (\<lambda>(i, l). none_comparison_new lines i l) (enumerate 1 lines)))"
proof -
  have "\<forall>(i, l)\<in>set (enumerate 1 lines). \<forall>iss'.
          none_comparison_body lines i l iss' = Inr (iss' @ none_comparison_new lines i l)"
  proof clarify
    fix i l iss'
    assume "(i, l) \<in> set (enumerate 1 lines)"
    from enumerate_lines_bounds [OF this] have "1 \<le> i" "i \<le> length lines" by simp_all
    then show "none_comparison_body lines i l iss' = Inr (iss' @ none_comparison_new lines i l)"
      by (rule none_comparison_body_new)
  qed
  then show ?thesis
    unfolding check_none_comparisons_def
    by (rule for_lines_append [where new = "none_comparison_new lines"])
qed

section \<open>The portfolio check\<close>

lemma check_portfolio_access_same: "check_portfolio_access lines iss = Inr iss"
proof -
  have "for_lines portfolio_body es iss = Inr iss" for es
    by (induction es) (auto simp: portfolio_body_def)
  then show ?thesis by (simp add: check_portfolio_access_def)
qed

section \<open>The validator as a whole\<close>

lemma validate_result:
  "validate uc v code =
     Inr (validate_issues uc (split_nl code), v\<lparr>issues := validate_issues uc (split_nl code)\<rparr>)"
  by (simp add: validate_def Let_def check_division_new check_max_min_new check_indicator_new
        check_none_comparisons_new check_portfolio_access_same validate_issues_def)

lemma validate_issues_line_bounds:
  assumes "f \<in> set (validate_issues uc lines)"
  shows "1 \<le> line f \<and> line f \<le> int (length lines)"
proof -
  have d: "1 \<le> line f \<and> line f \<le> int (length lines)"
    if "f \<in> set (concat (map (\<lambda>(i, l). division_new uc lines i l) (enumerate 1 lines)))"
    using division_new_line that by (rule line_bounds_of_emitted [where new = "division_new uc lines"])
  have m: "1 \<le> line f \<and> line f \<le> int (length lines)"
    if "f \<in> set (concat (map (\<lambda>(i, l). max_min_new uc lines i l) (enumerate 1 lines)))"
    using max_min_new_line that by (rule line_bounds_of_emitted [where new = "max_min_new uc lines"])
  have r: "1 \<le> line f \<and> line f \<le> int (length lines)"
    if "f \<in> set (concat (map (\<lambda>(i, l). indicator_new uc lines i l) (enumerate 1 lines)))"
    using indicator_new_line that by (rule line_bounds_of_emitted [where new = "indicator_new uc lines"])
  have c: "1 \<le> line f \<and> line f \<le> int (length lines)"
    if "f \<in> set (concat (map (\<lambda>(i, l). none_comparison_new lines i l) (enumerate 1 lines)))"
    using none_comparison_new_line that by (rule line_bounds_of_emitted [where new = "none_comparison_new lines"])
  from assms have
    "f \<in> set (concat (map (\<lambda>(i, l). division_new uc lines i l) (enumerate 1 lines))) \<or>
     f \<in> set (concat (map (\<lambda>(i, l). max_min_new uc lines i l) (enumerate 1 lines))) \<or>
     f \<in> set (concat (map (\<lambda>(i, l). indicator_new uc lines i l) (enumerate 1 lines))) \<or>
     f \<in> set (concat (map (\<lambda>(i, l). none_comparison_new lines i l) (enumerate 1 lines)))"
    by (simp only: validate_issues_def set_append Un_iff)
  with d m r c show ?thesis by blast
qed

text \<open>
  Claim C2. For every input text, \<open>validate\<close> returns a list of findings and raises nothing;
  and in every guard loop (any window \<open>w\<close>, any guard pattern) at a line number of the input,
  every read \<open>lines[j-1]\<close> is in range, so the loop ends with a truth value.
\<close>

theorem validate_never_raises:
  "(\<exists>fs v'. validate uc v code = Inr (fs, v')) \<and>
   (\<forall>i. 1 \<le> i \<and> i \<le> length (split_nl code) \<longrightarrow>
        (\<exists>b. guard_scan P (split_nl code) (lookback_range w i) = Inr b))"
  by (simp add: validate_result guard_scan_found)

text \<open>The theorem at the empty text: the result is the empty list, and the scan at line 1 ends.\<close>

theorem validate_never_raises_witness:
  "validate no_unicode new_validator [] = Inr ([], new_validator) \<and>
   (\<exists>b. guard_scan division_guard (split_nl []) (lookback_range 5 1) = Inr b)"
proof -
  have e: "validate no_unicode new_validator [] = Inr ([], new_validator)"
    by code_simp
  have i: "(1::nat) \<le> 1 \<and> 1 \<le> length (split_nl [])"
    by code_simp
  from validate_never_raises [of no_unicode new_validator "[]" division_guard 5] i e
  show ?thesis by blast
qed

text \<open>
  Claim C6. Every finding that \<open>validate\<close> returns for a text with \<open>L\<close> physical lines has a
  line number from 1 to \<open>L\<close>.
\<close>

theorem validate_line_bounds:
  "\<exists>fs v'. validate uc v code = Inr (fs, v') \<and>
     (\<forall>f\<in>set fs. 1 \<le> line f \<and> line f \<le> int (length (split_nl code)))"
  using validate_issues_line_bounds by (simp add: validate_result)

text \<open>The theorem at \<open>result = total / count\<close>: one line, one finding, at line 1.\<close>

theorem validate_line_bounds_witness:
  "\<exists>fs v'. validate no_unicode new_validator (u ''result = total / count'') = Inr (fs, v') \<and>
     fs = [division_issue 1 (u ''count'')] \<and> length (split_nl (u ''result = total / count'')) = 1 \<and>
     (\<forall>f\<in>set fs. 1 \<le> line f \<and> line f \<le> 1)"
proof -
  let ?T = "u ''result = total / count''"
  have r: "validate no_unicode new_validator ?T
             = Inr ([division_issue 1 (u ''count'')],
                    new_validator\<lparr>issues := [division_issue 1 (u ''count'')]\<rparr>)"
    by code_simp
  have n: "length (split_nl ?T) = 1" by code_simp
  from validate_line_bounds [of no_unicode new_validator ?T] r n
  show ?thesis by auto
qed

text \<open>
  Claim C7. Two calls of \<open>validate\<close> on the same text, one after the other on the same
  validator, return the same list of findings in the same order: the list is reset at the
  start of each call, and the result does not depend on the state the validator was in.
\<close>

theorem validate_deterministic:
  "\<exists>fs v'. validate uc v code = Inr (fs, v') \<and> validate uc v' code = Inr (fs, v') \<and>
     issues v' = fs \<and> (\<forall>v2. \<exists>v2'. validate uc v2 code = Inr (fs, v2'))"
  by (simp add: validate_result)

text \<open>
  The theorem at \<open>result = total / count\<close>, from a validator that still holds the finding of
  an earlier run.
\<close>

theorem validate_deterministic_witness:
  "\<exists>fs v'. validate no_unicode \<lparr>issues = [max_min_issue 7]\<rparr> (u ''result = total / count'')
               = Inr (fs, v') \<and>
     validate no_unicode v' (u ''result = total / count'') = Inr (fs, v') \<and>
     fs = [division_issue 1 (u ''count'')]"
proof -
  let ?T = "u ''result = total / count''"
  let ?v = "\<lparr>issues = [max_min_issue 7]\<rparr>"
  have r: "validate no_unicode ?v ?T
             = Inr ([division_issue 1 (u ''count'')], \<lparr>issues = [division_issue 1 (u ''count'')]\<rparr>)"
    by code_simp
  from validate_deterministic [of no_unicode ?v ?T] r
  show ?thesis by auto
qed

section \<open>Findings of the None comparison check\<close>

lemma none_comparison_emitted_iff:
  assumes "1 \<le> i" "i \<le> length lines"
  shows "(f \<in> set (concat (map (\<lambda>(k, l). none_comparison_new lines k l) (enumerate 1 lines)))
            \<and> line f = int i)
         = (f \<in> set (none_comparison_new lines i (lines ! (i - 1))))"
  using none_comparison_new_line assms
  by (rule emitted_for_line [where new = "none_comparison_new lines"])

text \<open>
  Claim C3. In the None comparison check, for every line \<open>i\<close> of the input that satisfies the
  trigger (a comparison operator, and \<open>indicators[\<close> or \<open>self.\<close>, and neither \<open>is None\<close> nor
  \<open>is not None\<close> on the line itself), a finding of severity \<open>error\<close> is appended for line
  \<open>i\<close> if and only if (the check's lookback scan found no guard and the line contains
  \<open>indicators["high"]\<close>) or the line contains \<open>indicators["low"]\<close>; so a line with
  \<open>indicators["low"]\<close> gets a finding also when a guard was found.
\<close>

theorem none_comparison_emits:
  assumes lines: "lines = split_nl code"
    and l: "l = lines ! (i - 1)"
    and i: "1 \<le> i" "i \<le> length lines"
    and trigger: "none_comparison_trigger l"
  shows "\<exists>new has_guard.
           check_none_comparisons lines iss = Inr (iss @ new) \<and>
           guard_scan none_guard lines (lookback_range 5 i) = Inr has_guard \<and>
           ((\<exists>f\<in>set new. line f = int i \<and> severity f = u ''error'') \<longleftrightarrow>
              ((\<not> has_guard \<and> has_high_literal l) \<or> has_low_literal l)) \<and>
           (has_low_literal l \<longrightarrow> (\<exists>f\<in>set new. line f = int i \<and> severity f = u ''error''))"
proof -
  define new where
    "new = concat (map (\<lambda>(k, l). none_comparison_new lines k l) (enumerate 1 lines))"
  define g where "g = guard_found none_guard 5 lines i"
  have run: "check_none_comparisons lines iss = Inr (iss @ new)"
    unfolding new_def by (rule check_none_comparisons_new)
  have scan: "guard_scan none_guard lines (lookback_range 5 i) = Inr g"
    unfolding g_def by (rule guard_scan_found [OF i])
  have mem: "\<And>f. (f \<in> set new \<and> line f = int i) = (f \<in> set (none_comparison_new lines i l))"
    unfolding new_def l by (rule none_comparison_emitted_iff [OF i])
  have new_i: "none_comparison_new lines i l =
                 (if (\<not> g \<and> has_high_literal l) \<or> has_low_literal l
                  then [none_comparison_issue i] else [])"
    using trigger by (simp add: none_comparison_new_def g_def)
  have sev: "severity (none_comparison_issue i) = u ''error''"
    by (simp add: none_comparison_issue_def)
  have emitted: "(\<exists>f\<in>set new. line f = int i \<and> severity f = u ''error'')
                   = ((\<not> g \<and> has_high_literal l) \<or> has_low_literal l)"
  proof (cases "(\<not> g \<and> has_high_literal l) \<or> has_low_literal l")
    case True
    with new_i have "none_comparison_issue i \<in> set (none_comparison_new lines i l)" by simp
    with mem have "none_comparison_issue i \<in> set new \<and> line (none_comparison_issue i) = int i"
      by blast
    with sev True show ?thesis by blast
  next
    case False
    with new_i have "none_comparison_new lines i l = []" by simp
    with mem have "\<And>f. \<not> (f \<in> set new \<and> line f = int i)" by simp
    with False show ?thesis by blast
  qed
  from run scan emitted show ?thesis by blast
qed

text \<open>
  The theorem at a two-line input: a guard on line 1, \<open>indicators["low"]\<close> on line 2. The scan
  finds the guard, and line 2 gets its finding all the same.
\<close>

theorem none_comparison_emits_witness:
  "\<exists>new. check_none_comparisons
            (split_nl (u ''if x is not None:'' @ [10] @
                       u ''    if self.a < indicators['' @ [34] @ u ''low'' @ [34] @ u '']:'')) []
            = Inr new \<and>
         guard_scan none_guard
            (split_nl (u ''if x is not None:'' @ [10] @
                       u ''    if self.a < indicators['' @ [34] @ u ''low'' @ [34] @ u '']:''))
            (lookback_range 5 2) = Inr True \<and>
         (\<exists>f\<in>set new. line f = 2 \<and> severity f = u ''error'')"
proof -
  let ?T = "u ''if x is not None:'' @ [10] @
            u ''    if self.a < indicators['' @ [34] @ u ''low'' @ [34] @ u '']:''"
  let ?l = "u ''    if self.a < indicators['' @ [34] @ u ''low'' @ [34] @ u '']:''"
  have h1: "split_nl ?T = split_nl ?T" by simp
  have h2: "?l = split_nl ?T ! (2 - 1)" by code_simp
  have h3: "(1::nat) \<le> 2" by simp
  have h4: "2 \<le> length (split_nl ?T)" by code_simp
  have h5: "none_comparison_trigger ?l" by code_simp
  have low: "has_low_literal ?l" by code_simp
  have g: "guard_scan none_guard (split_nl ?T) (lookback_range 5 2) = Inr True" by code_simp
  from none_comparison_emits [OF h1 h2 h3 h4 h5, of "[]"] low g
  show ?thesis by auto
qed

end
